theory Spec2Isabelle
  imports Complex_Main
begin

section \<open>JavaScript values\<close>

text \<open>
  A field of a JSON request body is absent (\<open>undefined\<close> when read), \<open>null\<close>, a boolean
  or a number. JSON numbers are finite. Strings and nested objects are left out: the
  dashboard's \<open>MPUData\<close> interface declares every axis as \<open>number\<close>.

  The result of arithmetic is a number or \<open>NaN\<close>. Numbers are modelled as reals, so the
  rounding of IEEE doubles and overflow to \<open>Infinity\<close> are abstracted away.
\<close>

datatype jsval = JUndefined | JNull | JBool bool | JNum real

datatype jsnum = NaN | Fin real

text \<open>\<open>ToNumber\<close>, applied by \<open>*\<close> to each operand.\<close>

fun to_number :: "jsval \<Rightarrow> jsnum" where
  "to_number JUndefined = NaN"
| "to_number JNull = Fin 0"
| "to_number (JBool b) = Fin (if b then 1 else 0)"
| "to_number (JNum x) = Fin x"

text \<open>\<open>ToBoolean\<close>, applied by \<open>!\<close>.\<close>

fun truthy :: "jsval \<Rightarrow> bool" where
  "truthy JUndefined = False"
| "truthy JNull = False"
| "truthy (JBool b) = b"
| "truthy (JNum x) = (x \<noteq> 0)"

fun js_mul :: "jsnum \<Rightarrow> jsnum \<Rightarrow> jsnum" where
  "js_mul (Fin x) (Fin y) = Fin (x * y)"
| "js_mul _ _ = NaN"

fun js_add :: "jsnum \<Rightarrow> jsnum \<Rightarrow> jsnum" where
  "js_add (Fin x) (Fin y) = Fin (x + y)"
| "js_add _ _ = NaN"

fun js_sub :: "jsnum \<Rightarrow> jsnum \<Rightarrow> jsnum" where
  "js_sub (Fin x) (Fin y) = Fin (x - y)"
| "js_sub _ _ = NaN"

text \<open>Division by a literal other than zero (the source divides by \<open>5.0\<close> only).\<close>

fun js_div_by :: "jsnum \<Rightarrow> real \<Rightarrow> jsnum" where
  "js_div_by (Fin x) c = Fin (x / c)"
| "js_div_by NaN c = NaN"

text \<open>\<open>Math.sqrt\<close>: \<open>NaN\<close> for a negative argument.\<close>

fun js_sqrt :: "jsnum \<Rightarrow> jsnum" where
  "js_sqrt (Fin x) = (if x < 0 then NaN else Fin (sqrt x))"
| "js_sqrt NaN = NaN"

text \<open>\<open>Math.min\<close>: \<open>NaN\<close> as soon as one argument is \<open>NaN\<close>.\<close>

fun js_min :: "jsnum \<Rightarrow> jsnum \<Rightarrow> jsnum" where
  "js_min (Fin x) (Fin y) = Fin (min x y)"
| "js_min _ _ = NaN"

text \<open>\<open><\<close>: false as soon as one operand is \<open>NaN\<close>.\<close>

fun js_lt :: "jsnum \<Rightarrow> jsnum \<Rightarrow> bool" where
  "js_lt (Fin x) (Fin y) = (x < y)"
| "js_lt _ _ = False"

text \<open>
  \<open>parseFloat(x.toFixed(3))\<close>: the nearest multiple of \<open>1/1000\<close>, the larger one on a
  tie; \<open>toFixed\<close> rounds the absolute value and puts the sign back. \<open>NaN.toFixed(3)\<close> is
  the string \<open>"NaN"\<close>, which \<open>parseFloat\<close> reads as \<open>NaN\<close>.
\<close>

fun toFixed3 :: "jsnum \<Rightarrow> jsnum" where
  "toFixed3 NaN = NaN"
| "toFixed3 (Fin x) =
     Fin (if x < 0 then - (of_int \<lfloor>- x * 1000 + 1 / 2\<rfloor> / 1000)
          else of_int \<lfloor>x * 1000 + 1 / 2\<rfloor> / 1000)"

section \<open>Readings and predictions\<close>

record reading =
  device_id :: "string option"
  ax :: jsval
  ay :: jsval
  az :: jsval
  gx :: jsval
  gy :: jsval
  gz :: jsval
  temperature_c :: jsval
  humidity_percent :: jsval
  timestamp :: jsval

datatype condition = Normal | Minor | Moderate | Severe

record prediction =
  degradation_score :: jsnum
  condition :: condition
  forecast_30d :: jsnum
  confidence :: jsnum

section \<open>computePredictions\<close>

text \<open>The local constants of \<open>computePredictions\<close>, in the order of the source.\<close>

definition accel_mag :: "reading \<Rightarrow> jsnum" where
  "accel_mag data =
     js_sqrt (js_add (js_add (js_mul (to_number (ax data)) (to_number (ax data)))
                             (js_mul (to_number (ay data)) (to_number (ay data))))
                     (js_mul (to_number (az data)) (to_number (az data))))"

definition gyro_mag :: "reading \<Rightarrow> jsnum" where
  "gyro_mag data =
     js_sqrt (js_add (js_add (js_mul (to_number (gx data)) (to_number (gx data)))
                             (js_mul (to_number (gy data)) (to_number (gy data))))
                     (js_mul (to_number (gz data)) (to_number (gz data))))"

definition rawDegradation :: "reading \<Rightarrow> jsnum" where
  "rawDegradation data =
     js_div_by (js_add (js_mul (accel_mag data) (Fin 0.8)) (js_mul (gyro_mag data) (Fin 0.2))) 5.0"

definition degradation :: "reading \<Rightarrow> jsnum" where
  "degradation data = js_min (Fin 1.0) (rawDegradation data)"

definition condition_of :: "jsnum \<Rightarrow> condition" where
  "condition_of d =
     (if js_lt d (Fin 0.15) then Normal
      else if js_lt d (Fin 0.3) then Minor
      else if js_lt d (Fin 0.6) then Moderate
      else Severe)"

text \<open>
  The two calls of \<open>Math.random()\<close> are the parameters \<open>rnd1\<close> and \<open>rnd2\<close>, in call
  order; each lies in \<open>[0, 1)\<close>.
\<close>

definition computePredictions :: "reading \<Rightarrow> real \<Rightarrow> real \<Rightarrow> prediction" where
  "computePredictions data rnd1 rnd2 =
     (let forecast = js_min (Fin 1.0)
                       (js_add (js_add (degradation data) (Fin 0.01)) (js_mul (Fin rnd1) (Fin 0.09)));
          conf = js_sub (Fin 1.0) (js_mul (Fin rnd2) (Fin 0.08))
      in \<lparr> degradation_score = toFixed3 (degradation data),
           condition = condition_of (degradation data),
           forecast_30d = toFixed3 forecast,
           confidence = toFixed3 conf \<rparr>)"

definition is_random :: "real \<Rightarrow> bool" where
  "is_random r = (0 \<le> r \<and> r < 1)"

text \<open>A field that \<open>ToNumber\<close> maps to a finite number.\<close>

definition finite_axis :: "jsval \<Rightarrow> bool" where
  "finite_axis v = (v \<noteq> JUndefined)"

definition finite_axes :: "reading \<Rightarrow> bool" where
  "finite_axes data =
     (finite_axis (ax data) \<and> finite_axis (ay data) \<and> finite_axis (az data) \<and>
      finite_axis (gx data) \<and> finite_axis (gy data) \<and> finite_axis (gz data))"

definition in_unit :: "jsnum \<Rightarrow> bool" where
  "in_unit a = (case a of NaN \<Rightarrow> False | Fin x \<Rightarrow> 0 \<le> x \<and> x \<le> 1)"

text \<open>A reading with the six axes given as numbers and nothing else.\<close>

definition mpu :: "real \<Rightarrow> real \<Rightarrow> real \<Rightarrow> real \<Rightarrow> real \<Rightarrow> real \<Rightarrow> reading" where
  "mpu a b c d e f =
     \<lparr> device_id = None, ax = JNum a, ay = JNum b, az = JNum c,
       gx = JNum d, gy = JNum e, gz = JNum f,
       temperature_c = JUndefined, humidity_percent = JUndefined, timestamp = JUndefined \<rparr>"

section \<open>The ingest server: \<open>POST /data\<close> and \<open>GET /latest\<close>\<close>

text \<open>
  The two module variables of the server. \<open>latestData\<close> is \<open>null\<close> or the object
  \<open>{...data, prediction}\<close>, kept here as the pair of the body and the prediction.
\<close>

record server =
  latestData :: "(reading \<times> prediction) option"
  lastAlertTime :: int

definition init_server :: server where
  "init_server = \<lparr> latestData = None, lastAlertTime = 0 \<rparr>"

definition ALERT_COOLDOWN_MS :: int where
  "ALERT_COOLDOWN_MS = 60000"

text \<open>\<open>data.device_id || "N/A"\<close>: the empty string is falsy.\<close>

definition device_label :: "string option \<Rightarrow> string" where
  "device_label d = (case d of None \<Rightarrow> ''N/A'' | Some n \<Rightarrow> if n = [] then ''N/A'' else n)"

record mailOptions =
  mail_device_id :: string
  mail_prediction :: prediction
  mail_data :: reading

datatype effect =
    LogDataReceived condition
  | SendMail mailOptions
  | LogEmailSent
  | LogEmailError

datatype response = Status400 string | StatusOk prediction

text \<open>
  The handler is \<open>async\<close> and suspends once, at \<open>await transporter.sendMail\<close>.
  \<open>post_data_sync\<close> is the part that runs up to that point (or to the end, when no mail
  is sent): it makes every assignment to the module variables. \<open>post_data_resume\<close> is
  the part that runs once the delivery has succeeded or failed: it logs and answers, and
  has no access to the state. \<open>now\<close> is the value of \<open>Date.now()\<close>.
\<close>

datatype pending = Rejected | Respond prediction | AwaitMail prediction

definition post_data_sync ::
  "server \<Rightarrow> reading \<Rightarrow> int \<Rightarrow> real \<Rightarrow> real \<Rightarrow> server \<times> effect list \<times> pending" where
  "post_data_sync s data now rnd1 rnd2 =
     (if \<not> truthy (ax data) \<or> \<not> truthy (ay data) \<or> \<not> truthy (az data)
      then (s, [], Rejected)
      else
        let prediction = computePredictions data rnd1 rnd2;
            s1 = s\<lparr>latestData := Some (data, prediction)\<rparr>;
            logged = [LogDataReceived (condition prediction)]
        in if condition prediction = Severe
           then if now - lastAlertTime s1 > ALERT_COOLDOWN_MS
                then (s1\<lparr>lastAlertTime := now\<rparr>,
                      logged @ [SendMail \<lparr> mail_device_id = device_label (device_id data),
                                             mail_prediction = prediction,
                                             mail_data = data \<rparr>],
                      AwaitMail prediction)
                else (s1, logged, Respond prediction)
           else (s1, logged, Respond prediction))"

definition post_data_resume :: "pending \<Rightarrow> bool \<Rightarrow> effect list \<times> response" where
  "post_data_resume p mail_ok =
     (case p of
        Rejected \<Rightarrow> ([], Status400 ''Incomplete MPU data'')
      | Respond prediction \<Rightarrow> ([], StatusOk prediction)
      | AwaitMail prediction \<Rightarrow>
          ([if mail_ok then LogEmailSent else LogEmailError], StatusOk prediction))"

definition post_data ::
  "server \<Rightarrow> reading \<Rightarrow> int \<Rightarrow> real \<Rightarrow> real \<Rightarrow> bool \<Rightarrow> server \<times> effect list \<times> response" where
  "post_data s data now rnd1 rnd2 mail_ok =
     (case post_data_sync s data now rnd1 rnd2 of
        (s', effs, p) \<Rightarrow>
          (case post_data_resume p mail_ok of
             (effs', resp) \<Rightarrow> (s', effs @ effs', resp)))"

datatype latest_response = NoDataYet string | Latest reading prediction

definition get_latest :: "server \<Rightarrow> latest_response" where
  "get_latest s =
     (case latestData s of
        None \<Rightarrow> NoDataYet ''No data yet''
      | Some (data, prediction) \<Rightarrow> Latest data prediction)"

text \<open>
  One request to \<open>POST /data\<close> with what the environment supplies while it is served:
  the clock, the two random draws and the outcome of the mail delivery.
\<close>

record request =
  req_data :: reading
  req_now :: int
  req_rnd1 :: real
  req_rnd2 :: real
  req_mail_ok :: bool

definition serve :: "server \<Rightarrow> request \<Rightarrow> server \<times> effect list \<times> response" where
  "serve s r = post_data s (req_data r) (req_now r) (req_rnd1 r) (req_rnd2 r) (req_mail_ok r)"

fun is_SendMail :: "effect \<Rightarrow> bool" where
  "is_SendMail (SendMail m) = True"
| "is_SendMail _ = False"

fun is_LogEmailError :: "effect \<Rightarrow> bool" where
  "is_LogEmailError LogEmailError = True"
| "is_LogEmailError _ = False"

text \<open>Requests served one after the other: the final state and all effects, in order.\<close>

fun serve_all :: "server \<Rightarrow> request list \<Rightarrow> server \<times> effect list" where
  "serve_all s [] = (s, [])"
| "serve_all s (r # rs) =
     (case serve s r of
        (s', effs, resp) \<Rightarrow>
          (case serve_all s' rs of (s'', effs') \<Rightarrow> (s'', effs @ effs')))"

definition notifications :: "effect list \<Rightarrow> nat" where
  "notifications effs = length (filter is_SendMail effs)"

text \<open>The clock values of the requests that sent a mail, in order.\<close>

fun alert_times :: "server \<Rightarrow> request list \<Rightarrow> int list" where
  "alert_times s [] = []"
| "alert_times s (r # rs) =
     (case serve s r of
        (s', effs, resp) \<Rightarrow>
          (if list_ex is_SendMail effs then [req_now r] else []) @ alert_times s' rs)"

definition accepted :: "reading \<Rightarrow> bool" where
  "accepted data = (truthy (ax data) \<and> truthy (ay data) \<and> truthy (az data))"

definition classified_severe :: "request \<Rightarrow> bool" where
  "classified_severe r =
     (accepted (req_data r) \<and>
      condition (computePredictions (req_data r) (req_rnd1 r) (req_rnd2 r)) = Severe)"

text \<open>Whether a request sends a mail.\<close>

definition fires :: "server \<Rightarrow> request \<Rightarrow> bool" where
  "fires s r = (classified_severe r \<and> req_now r - lastAlertTime s > ALERT_COOLDOWN_MS)"

text \<open>The last request of a list that the validator lets through.\<close>

fun last_accepted :: "request list \<Rightarrow> request option" where
  "last_accepted [] = None"
| "last_accepted (r # rs) =
     (case last_accepted rs of
        Some r' \<Rightarrow> Some r'
      | None \<Rightarrow> if accepted (req_data r) then Some r else None)"

text \<open>
  Consecutive alert times lie more than the cooldown apart, the first of them more than
  the cooldown after \<open>prev\<close>.
\<close>

fun spaced :: "int \<Rightarrow> int list \<Rightarrow> bool" where
  "spaced prev [] = True"
| "spaced prev (t # ts) = (t - prev > ALERT_COOLDOWN_MS \<and> spaced t ts)"

text \<open>Ten requests with the same severe reading, 100 ms apart, starting at \<open>t\<close>.\<close>

definition severe_request :: "int \<Rightarrow> request" where
  "severe_request t =
     \<lparr> req_data = mpu 3 4 12 0 0 0, req_now = t, req_rnd1 = 0, req_rnd2 = 0,
       req_mail_ok = True \<rparr>"

definition burst_at :: "int \<Rightarrow> request list" where
  "burst_at t = map (\<lambda>i. severe_request (t + 100 * int i)) [0..<10]"

text \<open>A reading with every axis but \<open>gz\<close>.\<close>

definition missing_gz :: reading where
  "missing_gz = (mpu 1 1 1 1 1 0)\<lparr>gz := JUndefined\<rparr>"

section \<open>The dashboard's rolling histories\<close>

definition MAX_POINTS :: int where
  "MAX_POINTS = 50"

text \<open>
  \<open>Array.prototype.slice(start)\<close>: a negative \<open>start\<close> counts from the end, and the
  start is clamped to the array.
\<close>

definition js_slice :: "'a list \<Rightarrow> int \<Rightarrow> 'a list" where
  "js_slice xs start =
     (let len = int (length xs);
          k = (if start < 0 then max (len + start) 0 else min start len)
      in drop (nat k) xs)"

record histories =
  axHistory :: "jsval list"
  ayHistory :: "jsval list"
  azHistory :: "jsval list"
  gxHistory :: "jsval list"
  gyHistory :: "jsval list"
  gzHistory :: "jsval list"
  tempHistory :: "jsval list"
  humidityHistory :: "jsval list"

definition init_histories :: histories where
  "init_histories =
     \<lparr> axHistory = [], ayHistory = [], azHistory = [], gxHistory = [], gyHistory = [],
       gzHistory = [], tempHistory = [], humidityHistory = [] \<rparr>"

definition updateHistory :: "histories \<Rightarrow> reading \<Rightarrow> histories" where
  "updateHistory h data =
     h\<lparr> axHistory := js_slice (axHistory h @ [ax data]) (- MAX_POINTS),
        ayHistory := js_slice (ayHistory h @ [ay data]) (- MAX_POINTS),
        azHistory := js_slice (azHistory h @ [az data]) (- MAX_POINTS),
        gxHistory := js_slice (gxHistory h @ [gx data]) (- MAX_POINTS),
        gyHistory := js_slice (gyHistory h @ [gy data]) (- MAX_POINTS),
        gzHistory := js_slice (gzHistory h @ [gz data]) (- MAX_POINTS),
        tempHistory := js_slice (tempHistory h @ [temperature_c data]) (- MAX_POINTS),
        humidityHistory := js_slice (humidityHistory h @ [humidity_percent data]) (- MAX_POINTS) \<rparr>"

definition channels :: "(histories \<Rightarrow> jsval list) list" where
  "channels = [axHistory, ayHistory, azHistory, gxHistory, gyHistory, gzHistory,
               tempHistory, humidityHistory]"

text \<open>The field of a reading that feeds each history, in the order of \<open>channels\<close>.\<close>

definition channel_fields :: "(reading \<Rightarrow> jsval) list" where
  "channel_fields = [ax, ay, az, gx, gy, gz, temperature_c, humidity_percent]"

section \<open>The WebSocket hub\<close>

text \<open>
  \<open>latestSensorData\<close> and the clients of the WebSocket server, each with whether its
  \<open>readyState\<close> is \<open>OPEN\<close>. \<open>sent\<close> records every \<open>send\<close>, in order: the receiving
  client and the payload. The payload is left abstract.
\<close>

record 'd hub =
  latestSensorData :: 'd
  clients :: "(nat \<times> bool) list"
  sent :: "(nat \<times> 'd) list"

definition broadcastToClients :: "'d hub \<Rightarrow> 'd \<Rightarrow> 'd hub" where
  "broadcastToClients h d =
     h\<lparr>sent := sent h @ map (\<lambda>c. (fst c, d)) (filter snd (clients h))\<rparr>"

text \<open>
  A new value arrives (from the serial line or from the simulation timer): it replaces
  \<open>latestSensorData\<close> and is broadcast. The alert check between the two does not touch
  the hub and is left out.
\<close>

definition publish :: "'d hub \<Rightarrow> 'd \<Rightarrow> 'd hub" where
  "publish h d =
     (let h1 = h\<lparr>latestSensorData := d\<rparr> in broadcastToClients h1 (latestSensorData h1))"

text \<open>The \<open>connection\<close> handler: the new client is sent the latest value at once.\<close>

definition on_connection :: "'d hub \<Rightarrow> nat \<Rightarrow> 'd hub" where
  "on_connection h c =
     h\<lparr>clients := clients h @ [(c, True)], sent := sent h @ [(c, latestSensorData h)]\<rparr>"

definition received :: "'d hub \<Rightarrow> nat \<Rightarrow> 'd list" where
  "received h c = map snd (filter (\<lambda>m. fst m = c) (sent h))"

definition fresh_client :: "'d hub \<Rightarrow> nat \<Rightarrow> bool" where
  "fresh_client h c = (c \<notin> fst ` set (clients h) \<and> c \<notin> fst ` set (sent h))"

section \<open>Facts about the classifier\<close>

lemma to_number_finite: "finite_axis v \<Longrightarrow> \<exists>x. to_number v = Fin x"
  by (cases v) (simp_all add: finite_axis_def)

lemma js_magnitude:
  "js_sqrt (js_add (js_add (js_mul (Fin a) (Fin a)) (js_mul (Fin b) (Fin b))) (js_mul (Fin c) (Fin c)))
     = Fin (sqrt (a * a + b * b + c * c))"
  by (simp add: not_less)

lemma accel_mag_finite:
  assumes "finite_axis (ax data)" and "finite_axis (ay data)" and "finite_axis (az data)"
  shows "\<exists>m. accel_mag data = Fin m \<and> 0 \<le> m"
proof -
  from assms(1) obtain a where a: "to_number (ax data) = Fin a"
    using to_number_finite by blast
  from assms(2) obtain b where b: "to_number (ay data) = Fin b"
    using to_number_finite by blast
  from assms(3) obtain c where c: "to_number (az data) = Fin c"
    using to_number_finite by blast
  have "accel_mag data = Fin (sqrt (a * a + b * b + c * c))"
    unfolding accel_mag_def a b c by (rule js_magnitude)
  moreover have "0 \<le> sqrt (a * a + b * b + c * c)"
    by simp
  ultimately show ?thesis by blast
qed

lemma gyro_mag_finite:
  assumes "finite_axis (gx data)" and "finite_axis (gy data)" and "finite_axis (gz data)"
  shows "\<exists>m. gyro_mag data = Fin m \<and> 0 \<le> m"
proof -
  from assms(1) obtain a where a: "to_number (gx data) = Fin a"
    using to_number_finite by blast
  from assms(2) obtain b where b: "to_number (gy data) = Fin b"
    using to_number_finite by blast
  from assms(3) obtain c where c: "to_number (gz data) = Fin c"
    using to_number_finite by blast
  have "gyro_mag data = Fin (sqrt (a * a + b * b + c * c))"
    unfolding gyro_mag_def a b c by (rule js_magnitude)
  moreover have "0 \<le> sqrt (a * a + b * b + c * c)"
    by simp
  ultimately show ?thesis by blast
qed

lemma degradation_finite:
  assumes "finite_axes data"
  shows "\<exists>a g. accel_mag data = Fin a \<and> gyro_mag data = Fin g \<and> 0 \<le> a \<and> 0 \<le> g \<and>
           degradation data = Fin (min 1 ((a * 0.8 + g * 0.2) / 5))"
proof -
  obtain a where a: "accel_mag data = Fin a" "0 \<le> a"
    using assms accel_mag_finite unfolding finite_axes_def by blast
  obtain g where g: "gyro_mag data = Fin g" "0 \<le> g"
    using assms gyro_mag_finite unfolding finite_axes_def by blast
  have "degradation data = Fin (min 1 ((a * 0.8 + g * 0.2) / 5))"
    by (simp add: degradation_def rawDegradation_def a g)
  with a g show ?thesis by blast
qed

lemma toFixed3_unit:
  assumes "0 \<le> x" and "x \<le> 1"
  shows "in_unit (toFixed3 (Fin x))"
proof -
  have lo: "0 \<le> \<lfloor>x * 1000 + 1 / 2\<rfloor>"
    using assms(1) by simp
  have "x * 1000 + 1 / 2 < 1001"
    using assms(2) by simp
  then have "\<lfloor>x * 1000 + 1 / 2\<rfloor> < 1001"
    by (simp add: floor_less_iff)
  then have hi: "\<lfloor>x * 1000 + 1 / 2\<rfloor> \<le> 1000"
    by simp
  have "(of_int \<lfloor>x * 1000 + 1 / 2\<rfloor> :: real) \<le> of_int 1000"
    using hi by (simp only: of_int_le_iff)
  moreover have "(0::real) \<le> of_int \<lfloor>x * 1000 + 1 / 2\<rfloor>"
    using lo by (simp only: of_int_0_le_iff)
  ultimately show ?thesis
    using assms(1) by (simp add: in_unit_def)
qed


lemma condition_computePredictions:
  "condition (computePredictions data rnd1 rnd2) = condition_of (degradation data)"
  by (simp add: computePredictions_def Let_def)

lemma degradation_single_axis:
  assumes "0 \<le> a"
  shows "degradation (mpu a 0 0 0 0 0) = Fin (min 1 (a * 0.8 / 5))"
proof -
  have "accel_mag (mpu a 0 0 0 0 0) = Fin a"
    using assms by (simp add: accel_mag_def mpu_def not_less)
  moreover have "gyro_mag (mpu a 0 0 0 0 0) = Fin 0"
    by (simp add: gyro_mag_def mpu_def)
  ultimately show ?thesis
    by (simp add: degradation_def rawDegradation_def)
qed

lemma computePredictions_fields:
  assumes "degradation data = Fin d"
  shows "degradation_score (computePredictions data rnd1 rnd2) = toFixed3 (Fin d)"
    and "forecast_30d (computePredictions data rnd1 rnd2) =
           toFixed3 (Fin (min 1 (d + 0.01 + rnd1 * 0.09)))"
    and "confidence (computePredictions data rnd1 rnd2) = toFixed3 (Fin (1 - rnd2 * 0.08))"
  by (simp_all add: computePredictions_def Let_def assms)

lemma sqrt_9: "sqrt 9 = 3"
  by (rule real_sqrt_unique) simp_all

text \<open>
  Claim C3. For a reading whose six axes are finite numbers, however large, and random
  draws in \<open>[0, 1)\<close>, the returned \<open>degradation_score\<close>, \<open>forecast_30d\<close> and
  \<open>confidence\<close> are numbers in \<open>[0, 1]\<close>. Both magnitudes are non-negative numbers;
  the returned score is the degradation \<open>min 1 ((accel_mag * 0.8 + gyro_mag * 0.2) / 5)\<close>,
  which lies in \<open>[0, 1]\<close>, rounded to three decimals; the returned forecast is
  \<open>min 1 (degradation + 0.01 + rnd1 * 0.09)\<close> rounded; the returned confidence is 1.0 minus
  a value in \<open>[0, 0.08]\<close>, rounded.
\<close>

theorem classify_outputs_in_unit_interval:
  assumes "finite_axes data" and "is_random rnd1" and "is_random rnd2"
  shows "in_unit (degradation_score (computePredictions data rnd1 rnd2)) \<and>
         in_unit (forecast_30d (computePredictions data rnd1 rnd2)) \<and>
         in_unit (confidence (computePredictions data rnd1 rnd2)) \<and>
         (\<exists>a g d v.
            accel_mag data = Fin a \<and> gyro_mag data = Fin g \<and> 0 \<le> a \<and> 0 \<le> g \<and>
            d = min 1 ((a * 0.8 + g * 0.2) / 5) \<and> 0 \<le> d \<and> d \<le> 1 \<and>
            degradation data = Fin d \<and>
            degradation_score (computePredictions data rnd1 rnd2) = toFixed3 (Fin d) \<and>
            forecast_30d (computePredictions data rnd1 rnd2) =
              toFixed3 (Fin (min 1 (d + 0.01 + rnd1 * 0.09))) \<and>
            v = rnd2 * 0.08 \<and> 0 \<le> v \<and> v \<le> 0.08 \<and>
            confidence (computePredictions data rnd1 rnd2) = toFixed3 (Fin (1.0 - v)))"
proof -
  obtain a g where ag: "accel_mag data = Fin a" "gyro_mag data = Fin g" "0 \<le> a" "0 \<le> g"
    and d: "degradation data = Fin (min 1 ((a * 0.8 + g * 0.2) / 5))"
    using degradation_finite [OF assms(1)] by blast
  define dg where "dg = min 1 ((a * 0.8 + g * 0.2) / 5)"
  define v where "v = rnd2 * 0.08"
  have dg: "0 \<le> dg" "dg \<le> 1"
    using ag(3,4) by (simp_all add: dg_def)
  have d': "degradation data = Fin dg"
    using d by (simp only: dg_def)
  have r1: "0 \<le> rnd1" "rnd1 < 1" and r2: "0 \<le> rnd2" "rnd2 < 1"
    using assms(2,3) by (simp_all add: is_random_def)
  have v: "0 \<le> v" "v \<le> 0.08"
    using r2 by (simp_all add: v_def)
  have es: "degradation_score (computePredictions data rnd1 rnd2) = toFixed3 (Fin dg)"
    and ef: "forecast_30d (computePredictions data rnd1 rnd2) =
           toFixed3 (Fin (min 1 (dg + 0.01 + rnd1 * 0.09)))"
    and ec: "confidence (computePredictions data rnd1 rnd2) = toFixed3 (Fin (1.0 - v))"
    using computePredictions_fields [OF d', of rnd1 rnd2] by (simp_all add: v_def)
  have s: "in_unit (degradation_score (computePredictions data rnd1 rnd2))"
    unfolding es using dg by (rule toFixed3_unit)
  have f0: "0 \<le> min 1 (dg + 0.01 + rnd1 * 0.09)"
    using dg(1) r1(1) by simp
  have f1: "min 1 (dg + 0.01 + rnd1 * 0.09) \<le> 1"
    by simp
  have f: "in_unit (forecast_30d (computePredictions data rnd1 rnd2))"
    unfolding ef using f0 f1 by (rule toFixed3_unit)
  have c0: "0 \<le> 1.0 - v" and c1: "1.0 - v \<le> 1"
    using v by simp_all
  have c: "in_unit (confidence (computePredictions data rnd1 rnd2))"
    unfolding ec using c0 c1 by (rule toFixed3_unit)
  have "\<exists>a g d v.
            accel_mag data = Fin a \<and> gyro_mag data = Fin g \<and> 0 \<le> a \<and> 0 \<le> g \<and>
            d = min 1 ((a * 0.8 + g * 0.2) / 5) \<and> 0 \<le> d \<and> d \<le> 1 \<and>
            degradation data = Fin d \<and>
            degradation_score (computePredictions data rnd1 rnd2) = toFixed3 (Fin d) \<and>
            forecast_30d (computePredictions data rnd1 rnd2) =
              toFixed3 (Fin (min 1 (d + 0.01 + rnd1 * 0.09))) \<and>
            v = rnd2 * 0.08 \<and> 0 \<le> v \<and> v \<le> 0.08 \<and>
            confidence (computePredictions data rnd1 rnd2) = toFixed3 (Fin (1.0 - v))"
    using ag dg_def dg d' es ef v_def v ec by blast
  with s f c show ?thesis by blast
qed

theorem classify_outputs_in_unit_interval_witness:
  "finite_axes (mpu 1 2 2 0 0 1) \<and> is_random (1 / 2) \<and> is_random (1 / 4) \<and>
   in_unit (degradation_score (computePredictions (mpu 1 2 2 0 0 1) (1 / 2) (1 / 4))) \<and>
   in_unit (forecast_30d (computePredictions (mpu 1 2 2 0 0 1) (1 / 2) (1 / 4))) \<and>
   in_unit (confidence (computePredictions (mpu 1 2 2 0 0 1) (1 / 2) (1 / 4))) \<and>
   computePredictions (mpu 1 2 2 0 0 1) (1 / 2) (1 / 4) =
     \<lparr> degradation_score = Fin 0.52, condition = Moderate, forecast_30d = Fin 0.575,
       confidence = Fin 0.98 \<rparr> \<and>
   computePredictions (mpu (10 ^ 100) 0 0 0 0 0) (1 / 2) (1 / 4) =
     \<lparr> degradation_score = Fin 1, condition = Severe, forecast_30d = Fin 1,
       confidence = Fin 0.98 \<rparr>"
proof -
  have h1: "finite_axes (mpu 1 2 2 0 0 1)"
    by (simp add: finite_axes_def finite_axis_def mpu_def)
  have h2: "is_random (1 / 2)" and h3: "is_random (1 / 4)"
    by (simp_all add: is_random_def)
  note th = classify_outputs_in_unit_interval [OF h1 h2 h3]
  have a: "accel_mag (mpu 1 2 2 0 0 1) = Fin 3"
    by (simp add: accel_mag_def mpu_def sqrt_9)
  have g: "gyro_mag (mpu 1 2 2 0 0 1) = Fin 1"
    by (simp add: gyro_mag_def mpu_def)
  have d: "degradation (mpu 1 2 2 0 0 1) = Fin 0.52"
    by (simp add: degradation_def rawDegradation_def a g)
  have e1: "computePredictions (mpu 1 2 2 0 0 1) (1 / 2) (1 / 4) =
     \<lparr> degradation_score = Fin 0.52, condition = Moderate, forecast_30d = Fin 0.575,
       confidence = Fin 0.98 \<rparr>"
    by (simp add: computePredictions_def Let_def d condition_of_def)
  have d2: "degradation (mpu (10 ^ 100) 0 0 0 0 0) = Fin 1"
    using degradation_single_axis [of "10 ^ 100"] by simp
  have e2: "computePredictions (mpu (10 ^ 100) 0 0 0 0 0) (1 / 2) (1 / 4) =
     \<lparr> degradation_score = Fin 1, condition = Severe, forecast_30d = Fin 1,
       confidence = Fin 0.98 \<rparr>"
    using d2 by (simp add: computePredictions_def Let_def condition_of_def)
  from th h1 h2 h3 e1 e2 show ?thesis
    by blast
qed

text \<open>
  Claim C4. The condition is decided by the clamped degradation, before it is rounded for
  the output: normal below 0.15, minor on \<open>[0.15, 0.30)\<close>, moderate on \<open>[0.30, 0.60)\<close>,
  severe from 0.60 on. A reading with degradation exactly 0.15 is minor, one with 0.149999
  is normal, one with 0.30 is moderate and one with 0.60 is severe.
\<close>

theorem condition_tiers_closed_open:
  "(degradation data = Fin d \<longrightarrow>
      (condition (computePredictions data rnd1 rnd2) = Normal \<longleftrightarrow> d < 0.15) \<and>
      (condition (computePredictions data rnd1 rnd2) = Minor \<longleftrightarrow> 0.15 \<le> d \<and> d < 0.3) \<and>
      (condition (computePredictions data rnd1 rnd2) = Moderate \<longleftrightarrow> 0.3 \<le> d \<and> d < 0.6) \<and>
      (condition (computePredictions data rnd1 rnd2) = Severe \<longleftrightarrow> 0.6 \<le> d)) \<and>
   degradation (mpu 0.9375 0 0 0 0 0) = Fin 0.15 \<and>
   condition (computePredictions (mpu 0.9375 0 0 0 0 0) rnd1 rnd2) = Minor \<and>
   degradation (mpu 0.93749375 0 0 0 0 0) = Fin 0.149999 \<and>
   condition (computePredictions (mpu 0.93749375 0 0 0 0 0) rnd1 rnd2) = Normal \<and>
   degradation (mpu 1.875 0 0 0 0 0) = Fin 0.3 \<and>
   condition (computePredictions (mpu 1.875 0 0 0 0 0) rnd1 rnd2) = Moderate \<and>
   degradation (mpu 3.75 0 0 0 0 0) = Fin 0.6 \<and>
   condition (computePredictions (mpu 3.75 0 0 0 0 0) rnd1 rnd2) = Severe"
proof -
  have tiers: "degradation data = Fin d \<longrightarrow>
      (condition (computePredictions data rnd1 rnd2) = Normal \<longleftrightarrow> d < 0.15) \<and>
      (condition (computePredictions data rnd1 rnd2) = Minor \<longleftrightarrow> 0.15 \<le> d \<and> d < 0.3) \<and>
      (condition (computePredictions data rnd1 rnd2) = Moderate \<longleftrightarrow> 0.3 \<le> d \<and> d < 0.6) \<and>
      (condition (computePredictions data rnd1 rnd2) = Severe \<longleftrightarrow> 0.6 \<le> d)"
    by (auto simp add: condition_computePredictions condition_of_def)
  have a: "degradation (mpu 0.9375 0 0 0 0 0) = Fin 0.15"
    using degradation_single_axis [of "0.9375"] by simp
  have b: "degradation (mpu 0.93749375 0 0 0 0 0) = Fin 0.149999"
    using degradation_single_axis [of "0.93749375"] by simp
  have c: "degradation (mpu 1.875 0 0 0 0 0) = Fin 0.3"
    using degradation_single_axis [of "1.875"] by simp
  have e: "degradation (mpu 3.75 0 0 0 0 0) = Fin 0.6"
    using degradation_single_axis [of "3.75"] by simp
  show ?thesis
    using tiers a b c e by (simp add: condition_computePredictions condition_of_def)
qed

theorem condition_tiers_closed_open_witness:
  "degradation (mpu 1.875 0 0 0 0 0) = Fin 0.3 \<and>
   condition (computePredictions (mpu 1.875 0 0 0 0 0) 0 0) \<noteq> Minor \<and>
   condition (computePredictions (mpu 1.875 0 0 0 0 0) 0 0) = Moderate"
  using condition_tiers_closed_open [of "mpu 1.875 0 0 0 0 0" "0.3" 0 0] by simp

section \<open>One request to the ingest server\<close>

lemma serve_rejected:
  assumes "\<not> accepted (req_data r)"
  shows "serve s r = (s, [], Status400 ''Incomplete MPU data'')"
  using assms
  by (auto simp add: serve_def post_data_def post_data_sync_def post_data_resume_def accepted_def)

lemma serve_not_severe:
  assumes "accepted (req_data r)"
    and "condition (computePredictions (req_data r) (req_rnd1 r) (req_rnd2 r)) \<noteq> Severe"
  shows "serve s r =
           (s\<lparr>latestData := Some (req_data r, computePredictions (req_data r) (req_rnd1 r) (req_rnd2 r))\<rparr>,
            [LogDataReceived (condition (computePredictions (req_data r) (req_rnd1 r) (req_rnd2 r)))],
            StatusOk (computePredictions (req_data r) (req_rnd1 r) (req_rnd2 r)))"
  using assms
  by (simp add: serve_def post_data_def post_data_sync_def post_data_resume_def accepted_def Let_def)

lemma serve_suppressed:
  assumes "classified_severe r" and "\<not> req_now r - lastAlertTime s > ALERT_COOLDOWN_MS"
  shows "serve s r =
           (s\<lparr>latestData := Some (req_data r, computePredictions (req_data r) (req_rnd1 r) (req_rnd2 r))\<rparr>,
            [LogDataReceived Severe],
            StatusOk (computePredictions (req_data r) (req_rnd1 r) (req_rnd2 r)))"
  using assms
  by (simp add: serve_def post_data_def post_data_sync_def post_data_resume_def accepted_def
      classified_severe_def Let_def)

lemma serve_alert:
  assumes "classified_severe r" and "req_now r - lastAlertTime s > ALERT_COOLDOWN_MS"
  shows "serve s r =
           (s\<lparr>latestData := Some (req_data r, computePredictions (req_data r) (req_rnd1 r) (req_rnd2 r)),
              lastAlertTime := req_now r\<rparr>,
            [LogDataReceived Severe,
             SendMail \<lparr> mail_device_id = device_label (device_id (req_data r)),
                        mail_prediction = computePredictions (req_data r) (req_rnd1 r) (req_rnd2 r),
                        mail_data = req_data r \<rparr>,
             if req_mail_ok r then LogEmailSent else LogEmailError],
            StatusOk (computePredictions (req_data r) (req_rnd1 r) (req_rnd2 r)))"
  using assms
  by (simp add: serve_def post_data_def post_data_sync_def post_data_resume_def accepted_def
      classified_severe_def Let_def)

lemma serve_effects:
  "list_ex is_SendMail (fst (snd (serve s r))) = fires s r"
  "notifications (fst (snd (serve s r))) = (if fires s r then 1 else 0)"
  "lastAlertTime (fst (serve s r)) = (if fires s r then req_now r else lastAlertTime s)"
proof -
  consider (rej) "\<not> accepted (req_data r)"
    | (mild) "accepted (req_data r)"
        "condition (computePredictions (req_data r) (req_rnd1 r) (req_rnd2 r)) \<noteq> Severe"
    | (quiet) "classified_severe r" "\<not> req_now r - lastAlertTime s > ALERT_COOLDOWN_MS"
    | (alert) "classified_severe r" "req_now r - lastAlertTime s > ALERT_COOLDOWN_MS"
    unfolding classified_severe_def by blast
  then have "list_ex is_SendMail (fst (snd (serve s r))) = fires s r \<and>
             notifications (fst (snd (serve s r))) = (if fires s r then 1 else 0) \<and>
             lastAlertTime (fst (serve s r)) = (if fires s r then req_now r else lastAlertTime s)"
  proof cases
    case rej
    then show ?thesis
      by (simp add: serve_rejected fires_def classified_severe_def notifications_def)
  next
    case mild
    then show ?thesis
      by (simp add: serve_not_severe fires_def classified_severe_def notifications_def)
  next
    case quiet
    then show ?thesis
      by (simp add: serve_suppressed fires_def notifications_def)
  next
    case alert
    then show ?thesis
      by (simp add: serve_alert fires_def notifications_def)
  qed
  then show "list_ex is_SendMail (fst (snd (serve s r))) = fires s r"
    and "notifications (fst (snd (serve s r))) = (if fires s r then 1 else 0)"
    and "lastAlertTime (fst (serve s r)) = (if fires s r then req_now r else lastAlertTime s)"
    by blast+
qed

section \<open>The alert cooldown\<close>

lemma serve_all_alerts:
  "notifications (snd (serve_all s reqs)) = length (alert_times s reqs)"
proof (induction reqs arbitrary: s)
  case Nil
  show ?case by (simp add: notifications_def)
next
  case (Cons r rs)
  obtain s' effs resp where sv: "serve s r = (s', effs, resp)"
    by (cases "serve s r") auto
  obtain s'' effs' where rest: "serve_all s' rs = (s'', effs')"
    by (cases "serve_all s' rs") auto
  have "notifications effs = (if list_ex is_SendMail effs then 1 else 0)"
    using serve_effects(1,2) [of s r] by (simp add: sv)
  moreover have "notifications effs' = length (alert_times s' rs)"
    using Cons.IH [of s'] by (simp add: rest)
  ultimately show ?case
    by (simp add: sv rest notifications_def)
qed

lemma serve_all_append:
  "serve_all s (xs @ ys) =
     (case serve_all s xs of
        (s', effs) \<Rightarrow> (case serve_all s' ys of (s'', effs') \<Rightarrow> (s'', effs @ effs')))"
  by (induction xs arbitrary: s) (auto split: prod.splits)

lemma alert_times_spaced: "spaced (lastAlertTime s) (alert_times s reqs)"
proof (induction reqs arbitrary: s)
  case Nil
  show ?case by simp
next
  case (Cons r rs)
  obtain s' effs resp where sv: "serve s r = (s', effs, resp)"
    by (cases "serve s r") auto
  have fx: "list_ex is_SendMail effs = fires s r"
    and la: "lastAlertTime s' = (if fires s r then req_now r else lastAlertTime s)"
    using serve_effects(1,3) [of s r] by (simp_all add: sv)
  have ih: "spaced (lastAlertTime s') (alert_times s' rs)"
    by (rule Cons.IH)
  show ?case
  proof (cases "fires s r")
    case True
    then show ?thesis
      using ih la fx by (simp add: sv fires_def)
  next
    case False
    then show ?thesis
      using ih la fx by (simp add: sv)
  qed
qed

lemma spaced_later:
  "spaced prev ts \<Longrightarrow> t \<in> set ts \<Longrightarrow> t - prev > ALERT_COOLDOWN_MS"
proof (induction ts arbitrary: prev)
  case Nil
  then show ?case by simp
next
  case (Cons u us)
  show ?case
  proof (cases "t = u")
    case True
    with Cons.prems show ?thesis by simp
  next
    case False
    with Cons.prems have "t \<in> set us" and "spaced u us" and "u - prev > ALERT_COOLDOWN_MS"
      by simp_all
    then have "t - u > ALERT_COOLDOWN_MS"
      using Cons.IH by blast
    with \<open>u - prev > ALERT_COOLDOWN_MS\<close> show ?thesis
      by (simp add: ALERT_COOLDOWN_MS_def)
  qed
qed

lemma spaced_window:
  "spaced prev ts \<Longrightarrow>
     length (filter (\<lambda>t. w \<le> t \<and> t \<le> w + ALERT_COOLDOWN_MS) ts) \<le> 1"
proof (induction ts arbitrary: prev)
  case Nil
  then show ?case by simp
next
  case (Cons u us)
  then have sp: "spaced u us" by simp
  show ?case
  proof (cases "w \<le> u \<and> u \<le> w + ALERT_COOLDOWN_MS")
    case True
    have "filter (\<lambda>t. w \<le> t \<and> t \<le> w + ALERT_COOLDOWN_MS) us = []"
    proof -
      have "\<not> (w \<le> t \<and> t \<le> w + ALERT_COOLDOWN_MS)" if "t \<in> set us" for t
        using spaced_later [OF sp that] True by simp
      then show ?thesis
        by (simp add: filter_empty_conv)
    qed
    with True show ?thesis by simp
  next
    case False
    then have "filter (\<lambda>t. w \<le> t \<and> t \<le> w + ALERT_COOLDOWN_MS) (u # us) =
               filter (\<lambda>t. w \<le> t \<and> t \<le> w + ALERT_COOLDOWN_MS) us"
      by auto
    then show ?thesis
      using Cons.IH [OF sp] by (simp only:)
  qed
qed

lemma serve_all_lastAlertTime:
  "lastAlertTime (fst (serve_all s reqs)) = last (lastAlertTime s # alert_times s reqs)"
proof (induction reqs arbitrary: s)
  case Nil
  show ?case by simp
next
  case (Cons r rs)
  obtain s' effs resp where sv: "serve s r = (s', effs, resp)"
    by (cases "serve s r") auto
  obtain s'' effs' where rest: "serve_all s' rs = (s'', effs')"
    by (cases "serve_all s' rs") auto
  have fx: "list_ex is_SendMail effs = fires s r"
    and la: "lastAlertTime s' = (if fires s r then req_now r else lastAlertTime s)"
    using serve_effects(1,3) [of s r] by (simp_all add: sv)
  have ih: "lastAlertTime s'' = last (lastAlertTime s' # alert_times s' rs)"
    using Cons.IH [of s'] by (simp add: rest)
  show ?case
    using ih la fx by (simp add: sv rest)
qed

lemma quiet_burst:
  assumes "\<forall>r\<in>set reqs. req_now r - lastAlertTime s \<le> ALERT_COOLDOWN_MS"
  shows "alert_times s reqs = []"
  using assms
proof (induction reqs arbitrary: s)
  case Nil
  show ?case by simp
next
  case (Cons r rs)
  obtain s' effs resp where sv: "serve s r = (s', effs, resp)"
    by (cases "serve s r") auto
  have nf: "\<not> fires s r"
    using Cons.prems by (simp add: fires_def)
  have fx: "\<not> list_ex is_SendMail effs" and la: "lastAlertTime s' = lastAlertTime s"
    using serve_effects(1,3) [of s r] nf by (simp_all add: sv)
  have "alert_times s' rs = []"
    using Cons.prems la by (intro Cons.IH) simp
  then show ?case
    using fx by (simp add: sv)
qed

lemma severe_burst:
  assumes ne: "burst \<noteq> []"
    and sev: "\<forall>r\<in>set burst. classified_severe r \<and> t \<le> req_now r \<and> req_now r \<le> t + 1000"
    and el: "t - lastAlertTime s > ALERT_COOLDOWN_MS"
  shows "alert_times s burst = [req_now (hd burst)]"
proof -
  obtain r rs where b: "burst = r # rs"
    using ne by (cases burst) auto
  obtain s' effs resp where sv: "serve s r = (s', effs, resp)"
    by (cases "serve s r") auto
  have r: "classified_severe r" "t \<le> req_now r" "req_now r \<le> t + 1000"
    using sev b by simp_all
  have f: "fires s r"
    using r el by (simp add: fires_def)
  have fx: "list_ex is_SendMail effs" and la: "lastAlertTime s' = req_now r"
    using serve_effects(1,3) [of s r] f by (simp_all add: sv)
  have "\<forall>q\<in>set rs. req_now q - lastAlertTime s' \<le> ALERT_COOLDOWN_MS"
    using sev b r la by (auto simp add: ALERT_COOLDOWN_MS_def)
  then have "alert_times s' rs = []"
    by (rule quiet_burst)
  then show ?thesis
    using fx by (simp add: b sv)
qed

lemma sqrt_169: "sqrt 169 = 13"
  by (rule real_sqrt_unique) simp_all

lemma classified_severe_severe_request: "classified_severe (severe_request t)"
proof -
  have "accel_mag (mpu 3 4 12 0 0 0) = Fin 13"
    by (simp add: accel_mag_def mpu_def sqrt_169)
  moreover have "gyro_mag (mpu 3 4 12 0 0 0) = Fin 0"
    by (simp add: gyro_mag_def mpu_def)
  ultimately have "degradation (mpu 3 4 12 0 0 0) = Fin 1"
    by (simp add: degradation_def rawDegradation_def)
  then have "condition (computePredictions (mpu 3 4 12 0 0 0) 0 0) = Severe"
    by (simp add: condition_computePredictions condition_of_def)
  moreover have "accepted (mpu 3 4 12 0 0 0)"
    by (simp add: accepted_def mpu_def)
  ultimately show ?thesis
    by (simp add: classified_severe_def severe_request_def)
qed

lemma req_now_severe_request: "req_now (severe_request t) = t"
  by (simp add: severe_request_def)

text \<open>
  Claim C1. Whatever requests are served from whatever state, no window of 60000 ms holds
  the clock values of two requests that sent a mail. A burst of severe readings that all
  arrive within one second, the first of them after the cooldown has elapsed, sends exactly
  one mail; a further severe reading that arrives more than the cooldown after that alert
  sends a second mail and sets \<open>lastAlertTime\<close> to its own clock value.
\<close>

theorem alert_cooldown:
  "(\<forall>w. length (filter (\<lambda>t. w \<le> t \<and> t \<le> w + ALERT_COOLDOWN_MS) (alert_times s reqs)) \<le> 1) \<and>
   notifications (snd (serve_all s reqs)) = length (alert_times s reqs) \<and>
   (burst \<noteq> [] \<and>
    (\<forall>r\<in>set burst. classified_severe r \<and> t \<le> req_now r \<and> req_now r \<le> t + 1000) \<and>
    t - lastAlertTime s > ALERT_COOLDOWN_MS \<longrightarrow>
      notifications (snd (serve_all s burst)) = 1 \<and>
      lastAlertTime (fst (serve_all s burst)) = req_now (hd burst) \<and>
      (classified_severe r' \<and>
       req_now r' - lastAlertTime (fst (serve_all s burst)) > ALERT_COOLDOWN_MS \<longrightarrow>
         notifications (snd (serve_all s (burst @ [r']))) = 2 \<and>
         lastAlertTime (fst (serve_all s (burst @ [r']))) = req_now r'))"
proof (intro conjI allI impI)
  fix w
  show "length (filter (\<lambda>t. w \<le> t \<and> t \<le> w + ALERT_COOLDOWN_MS) (alert_times s reqs)) \<le> 1"
    using alert_times_spaced by (rule spaced_window)
next
  show "notifications (snd (serve_all s reqs)) = length (alert_times s reqs)"
    by (rule serve_all_alerts)
next
  assume h: "burst \<noteq> [] \<and>
    (\<forall>r\<in>set burst. classified_severe r \<and> t \<le> req_now r \<and> req_now r \<le> t + 1000) \<and>
    t - lastAlertTime s > ALERT_COOLDOWN_MS"
  then have at: "alert_times s burst = [req_now (hd burst)]"
    by (intro severe_burst) blast+
  show n1: "notifications (snd (serve_all s burst)) = 1"
    by (simp add: serve_all_alerts at)
  show l1: "lastAlertTime (fst (serve_all s burst)) = req_now (hd burst)"
    by (simp add: serve_all_lastAlertTime at)
  assume h': "classified_severe r' \<and>
    req_now r' - lastAlertTime (fst (serve_all s burst)) > ALERT_COOLDOWN_MS"
  obtain s1 effs1 where b: "serve_all s burst = (s1, effs1)"
    by (cases "serve_all s burst") auto
  have f: "fires s1 r'"
    using h' by (simp add: fires_def b)
  obtain s2 effs2 resp where sv: "serve s1 r' = (s2, effs2, resp)"
    by (cases "serve s1 r'") auto
  have e2: "notifications effs2 = 1" and l2: "lastAlertTime s2 = req_now r'"
    using serve_effects(2,3) [of s1 r'] f by (simp_all add: sv)
  have all: "serve_all s (burst @ [r']) = (s2, effs1 @ effs2)"
    by (simp add: serve_all_append b sv)
  have "notifications effs1 = 1"
    using n1 by (simp add: b)
  with e2 show "notifications (snd (serve_all s (burst @ [r']))) = 2"
    by (simp add: all notifications_def)
  show "lastAlertTime (fst (serve_all s (burst @ [r']))) = req_now r'"
    by (simp add: all l2)
qed

theorem alert_cooldown_witness:
  "length (burst_at 1700000000000) = 10 \<and>
   list_all (\<lambda>r. classified_severe r \<and> 1700000000000 \<le> req_now r \<and>
                 req_now r \<le> 1700000000000 + 1000) (burst_at 1700000000000) \<and>
   1700000000000 - lastAlertTime init_server > ALERT_COOLDOWN_MS \<and>
   notifications (snd (serve_all init_server (burst_at 1700000000000))) = 1 \<and>
   notifications (snd (serve_all init_server
      (burst_at 1700000000000 @ [severe_request 1700000061000]))) = 2 \<and>
   lastAlertTime (fst (serve_all init_server
      (burst_at 1700000000000 @ [severe_request 1700000061000]))) = 1700000061000"
proof -
  have h1: "burst_at 1700000000000 \<noteq> []" and len: "length (burst_at 1700000000000) = 10"
    by (simp_all add: burst_at_def)
  have h2: "\<forall>r\<in>set (burst_at 1700000000000).
      classified_severe r \<and> 1700000000000 \<le> req_now r \<and> req_now r \<le> 1700000000000 + 1000"
    by (auto simp add: burst_at_def classified_severe_severe_request req_now_severe_request)
  have h3: "1700000000000 - lastAlertTime init_server > ALERT_COOLDOWN_MS"
    by (simp add: init_server_def ALERT_COOLDOWN_MS_def)
  have hd: "req_now (hd (burst_at 1700000000000)) = 1700000000000"
    by (simp add: burst_at_def severe_request_def upt_conv_Cons)
  have r: "req_now (severe_request 1700000061000) = 1700000061000"
    by (simp add: severe_request_def)
  show ?thesis
    using alert_cooldown [of init_server "[]" "burst_at 1700000000000" 1700000000000
        "severe_request 1700000061000"]
      h1 h2 h3 len hd r classified_severe_severe_request [of 1700000061000]
    by (simp add: ALERT_COOLDOWN_MS_def list_all_iff)
qed

section \<open>Mail delivery failure\<close>

lemma post_data_sync_alert:
  assumes "classified_severe r" and "req_now r - lastAlertTime s > ALERT_COOLDOWN_MS"
  shows "post_data_sync s (req_data r) (req_now r) (req_rnd1 r) (req_rnd2 r) =
           (s\<lparr>latestData := Some (req_data r, computePredictions (req_data r) (req_rnd1 r) (req_rnd2 r)),
              lastAlertTime := req_now r\<rparr>,
            [LogDataReceived Severe,
             SendMail \<lparr> mail_device_id = device_label (device_id (req_data r)),
                        mail_prediction = computePredictions (req_data r) (req_rnd1 r) (req_rnd2 r),
                        mail_data = req_data r \<rparr>],
            AwaitMail (computePredictions (req_data r) (req_rnd1 r) (req_rnd2 r)))"
  using assms
  by (simp add: post_data_sync_def accepted_def classified_severe_def Let_def)

text \<open>
  Claim C5. When a severe reading arrives after the cooldown has elapsed and the mail
  delivery fails: \<open>lastAlertTime\<close> is already set to the clock value at the point where the
  handler waits for the delivery, the final state is that state and is the same as when the
  delivery succeeds, one mail was attempted and one error logged, the request is still
  answered with the prediction, and a later severe reading within the cooldown sends
  nothing, so the failed mail is not retried.
\<close>

theorem failed_mail_keeps_alert_state:
  assumes "classified_severe r"
    and "req_now r - lastAlertTime s > ALERT_COOLDOWN_MS"
    and "\<not> req_mail_ok r"
  shows "lastAlertTime (fst (post_data_sync s (req_data r) (req_now r) (req_rnd1 r) (req_rnd2 r)))
           = req_now r \<and>
         snd (snd (post_data_sync s (req_data r) (req_now r) (req_rnd1 r) (req_rnd2 r)))
           = AwaitMail (computePredictions (req_data r) (req_rnd1 r) (req_rnd2 r)) \<and>
         fst (serve s r) = fst (post_data_sync s (req_data r) (req_now r) (req_rnd1 r) (req_rnd2 r)) \<and>
         fst (serve s r) = fst (serve s (r\<lparr>req_mail_ok := True\<rparr>)) \<and>
         notifications (fst (snd (serve s r))) = 1 \<and>
         length (filter is_LogEmailError (fst (snd (serve s r)))) = 1 \<and>
         snd (snd (serve s r)) = StatusOk (computePredictions (req_data r) (req_rnd1 r) (req_rnd2 r)) \<and>
         (classified_severe r' \<and> req_now r' - req_now r \<le> ALERT_COOLDOWN_MS \<longrightarrow>
            notifications (fst (snd (serve (fst (serve s r)) r'))) = 0 \<and>
            lastAlertTime (fst (serve (fst (serve s r)) r')) = req_now r)"
proof -
  let ?r = "r\<lparr>req_mail_ok := True\<rparr>"
  have sy: "post_data_sync s (req_data r) (req_now r) (req_rnd1 r) (req_rnd2 r) =
           (s\<lparr>latestData := Some (req_data r, computePredictions (req_data r) (req_rnd1 r) (req_rnd2 r)),
              lastAlertTime := req_now r\<rparr>,
            [LogDataReceived Severe,
             SendMail \<lparr> mail_device_id = device_label (device_id (req_data r)),
                        mail_prediction = computePredictions (req_data r) (req_rnd1 r) (req_rnd2 r),
                        mail_data = req_data r \<rparr>],
            AwaitMail (computePredictions (req_data r) (req_rnd1 r) (req_rnd2 r)))"
    using assms(1,2) by (rule post_data_sync_alert)
  have sv: "serve s r =
           (s\<lparr>latestData := Some (req_data r, computePredictions (req_data r) (req_rnd1 r) (req_rnd2 r)),
              lastAlertTime := req_now r\<rparr>,
            [LogDataReceived Severe,
             SendMail \<lparr> mail_device_id = device_label (device_id (req_data r)),
                        mail_prediction = computePredictions (req_data r) (req_rnd1 r) (req_rnd2 r),
                        mail_data = req_data r \<rparr>,
             LogEmailError],
            StatusOk (computePredictions (req_data r) (req_rnd1 r) (req_rnd2 r)))"
    using serve_alert [OF assms(1,2)] assms(3) by simp
  have "classified_severe ?r" and "req_now ?r - lastAlertTime s > ALERT_COOLDOWN_MS"
    using assms(1,2) by (simp_all add: classified_severe_def)
  then have "fires s ?r"
    by (simp add: fires_def)
  then have ok: "fst (serve s ?r) = fst (serve s r)"
    using serve_alert [of ?r s] by (simp add: sv fires_def)
  have later: "notifications (fst (snd (serve (fst (serve s r)) r'))) = 0 \<and>
               lastAlertTime (fst (serve (fst (serve s r)) r')) = req_now r"
    if "classified_severe r' \<and> req_now r' - req_now r \<le> ALERT_COOLDOWN_MS"
  proof -
    have "\<not> fires (fst (serve s r)) r'"
      using that by (simp add: fires_def sv)
    then show ?thesis
      using serve_effects(2,3) [of "fst (serve s r)" r'] by (simp add: sv)
  qed
  show ?thesis
    using later ok by (simp add: sy sv notifications_def)
qed

theorem failed_mail_keeps_alert_state_witness:
  "classified_severe ((severe_request 1700000000000)\<lparr>req_mail_ok := False\<rparr>) \<and>
   classified_severe (severe_request 1700000005000) \<and>
   lastAlertTime (fst (serve init_server ((severe_request 1700000000000)\<lparr>req_mail_ok := False\<rparr>)))
     = 1700000000000 \<and>
   notifications (fst (snd (serve init_server
      ((severe_request 1700000000000)\<lparr>req_mail_ok := False\<rparr>)))) = 1 \<and>
   length (filter is_LogEmailError (fst (snd (serve init_server
      ((severe_request 1700000000000)\<lparr>req_mail_ok := False\<rparr>))))) = 1 \<and>
   notifications (fst (snd (serve
      (fst (serve init_server ((severe_request 1700000000000)\<lparr>req_mail_ok := False\<rparr>)))
      (severe_request 1700000005000)))) = 0"
proof -
  let ?r = "(severe_request 1700000000000)\<lparr>req_mail_ok := False\<rparr>"
  have h1: "classified_severe ?r"
    using classified_severe_severe_request [of 1700000000000]
    by (simp add: classified_severe_def)
  have h2: "req_now ?r - lastAlertTime init_server > ALERT_COOLDOWN_MS"
    by (simp add: severe_request_def init_server_def ALERT_COOLDOWN_MS_def)
  have h3: "\<not> req_mail_ok ?r"
    by simp
  have h4: "classified_severe (severe_request 1700000005000)"
    by (rule classified_severe_severe_request)
  have h5: "req_now (severe_request 1700000005000) - req_now ?r \<le> ALERT_COOLDOWN_MS"
    by (simp add: severe_request_def ALERT_COOLDOWN_MS_def)
  have n: "req_now ?r = 1700000000000"
    by (simp add: severe_request_def)
  note th = failed_mail_keeps_alert_state [OF h1 h2 h3, of "severe_request 1700000005000"]
  from th have e1: "lastAlertTime (fst (post_data_sync init_server (req_data ?r) (req_now ?r)
      (req_rnd1 ?r) (req_rnd2 ?r))) = req_now ?r"
    by blast
  from th have e3: "fst (serve init_server ?r) = fst (post_data_sync init_server (req_data ?r)
      (req_now ?r) (req_rnd1 ?r) (req_rnd2 ?r))"
    by blast
  have c1: "lastAlertTime (fst (serve init_server ?r)) = 1700000000000"
    unfolding e3 e1 by (rule n)
  from th have c2: "notifications (fst (snd (serve init_server ?r))) = 1"
    by blast
  from th have c3: "length (filter is_LogEmailError (fst (snd (serve init_server ?r)))) = 1"
    by blast
  from th h4 h5 have c4: "notifications (fst (snd (serve (fst (serve init_server ?r))
      (severe_request 1700000005000)))) = 0"
    by blast
  from h1 h4 c1 c2 c3 c4 show ?thesis
    by blast
qed

section \<open>Validation and what is published\<close>

text \<open>
  Claim C9. A reading whose \<open>ax\<close>, \<open>ay\<close> or \<open>az\<close> is falsy (absent, \<open>null\<close>, \<open>false\<close>
  or the number 0) is answered with status 400 and the error \<open>Incomplete MPU data\<close>; the
  state is unchanged and nothing is logged or sent. The number 0 is falsy, so a reading
  with all axes zero is rejected.
\<close>

theorem falsy_accel_axis_rejected:
  "(\<not> truthy (ax data) \<or> \<not> truthy (ay data) \<or> \<not> truthy (az data) \<longrightarrow>
      post_data s data now rnd1 rnd2 mail_ok = (s, [], Status400 ''Incomplete MPU data'')) \<and>
   \<not> truthy (JNum 0) \<and>
   post_data s (mpu 0 0 0 0 0 0) now rnd1 rnd2 mail_ok = (s, [], Status400 ''Incomplete MPU data'')"
  by (simp add: post_data_def post_data_sync_def post_data_resume_def mpu_def)

theorem falsy_accel_axis_rejected_witness:
  "\<not> truthy (ay (mpu 3 0 12 1 1 1)) \<and>
   post_data init_server (mpu 3 0 12 1 1 1) 1700000000000 0 0 True =
     (init_server, [], Status400 ''Incomplete MPU data'')"
proof -
  have h: "\<not> truthy (ay (mpu 3 0 12 1 1 1))"
    by (simp add: mpu_def)
  then show ?thesis
    using falsy_accel_axis_rejected [of "mpu 3 0 12 1 1 1" init_server 1700000000000 0 0 True]
    by blast
qed

lemma js_magnitude_NaN:
  assumes "a = NaN \<or> b = NaN \<or> c = NaN"
  shows "js_sqrt (js_add (js_add (js_mul a a) (js_mul b b)) (js_mul c c)) = NaN"
  using assms by (cases a; cases b; cases c) auto

lemma gyro_mag_missing:
  assumes "gx data = JUndefined \<or> gy data = JUndefined \<or> gz data = JUndefined"
  shows "gyro_mag data = NaN"
  unfolding gyro_mag_def using assms by (intro js_magnitude_NaN) auto

lemma degradation_missing_gyro:
  assumes "gx data = JUndefined \<or> gy data = JUndefined \<or> gz data = JUndefined"
  shows "degradation data = NaN"
proof -
  have "js_add a NaN = NaN" for a
    by (cases a) simp_all
  then show ?thesis
    by (simp add: degradation_def rawDegradation_def gyro_mag_missing [OF assms])
qed

text \<open>
  Claim C10. A reading that passes the validator (truthy \<open>ax\<close>, \<open>ay\<close>, \<open>az\<close>) but lacks
  \<open>gx\<close>, \<open>gy\<close> or \<open>gz\<close> is classified: the gyroscope magnitude and the degradation
  are \<open>NaN\<close>, each of the three threshold comparisons is false, the condition is severe,
  the returned score is \<open>NaN\<close>, and the request is answered with this prediction and
  stored as the latest value.
\<close>

theorem missing_gyro_classified_severe:
  assumes "accepted data"
    and "gx data = JUndefined \<or> gy data = JUndefined \<or> gz data = JUndefined"
  shows "gyro_mag data = NaN \<and> degradation data = NaN \<and>
         \<not> js_lt (degradation data) (Fin 0.15) \<and>
         \<not> js_lt (degradation data) (Fin 0.3) \<and>
         \<not> js_lt (degradation data) (Fin 0.6) \<and>
         degradation_score (computePredictions data rnd1 rnd2) = NaN \<and>
         condition (computePredictions data rnd1 rnd2) = Severe \<and>
         snd (snd (post_data s data now rnd1 rnd2 mail_ok)) = StatusOk (computePredictions data rnd1 rnd2) \<and>
         latestData (fst (post_data s data now rnd1 rnd2 mail_ok)) =
           Some (data, computePredictions data rnd1 rnd2)"
proof -
  have g: "gyro_mag data = NaN"
    using assms(2) by (rule gyro_mag_missing)
  have d: "degradation data = NaN"
    using assms(2) by (rule degradation_missing_gyro)
  have c: "condition (computePredictions data rnd1 rnd2) = Severe"
    by (simp add: condition_computePredictions condition_of_def d)
  have sc: "degradation_score (computePredictions data rnd1 rnd2) = NaN"
    by (simp add: computePredictions_def Let_def d)
  have p: "snd (snd (post_data s data now rnd1 rnd2 mail_ok)) = StatusOk (computePredictions data rnd1 rnd2) \<and>
           latestData (fst (post_data s data now rnd1 rnd2 mail_ok)) =
             Some (data, computePredictions data rnd1 rnd2)"
    using assms(1) c
    by (simp add: post_data_def post_data_sync_def post_data_resume_def accepted_def Let_def)
  show ?thesis
    using g c sc p by (simp add: d)
qed

theorem missing_gyro_classified_severe_witness:
  "accepted missing_gz \<and> gz missing_gz = JUndefined \<and>
   degradation_score (computePredictions missing_gz 0 0) = NaN \<and>
   condition (computePredictions missing_gz 0 0) = Severe \<and>
   snd (snd (post_data init_server missing_gz 1700000000000 0 0 True)) =
     StatusOk (computePredictions missing_gz 0 0)"
proof -
  have h1: "accepted missing_gz"
    by (simp add: accepted_def missing_gz_def mpu_def)
  have h2: "gz missing_gz = JUndefined"
    by (simp add: missing_gz_def)
  then have h2': "gx missing_gz = JUndefined \<or> gy missing_gz = JUndefined \<or> gz missing_gz = JUndefined"
    by blast
  from h1 h2 missing_gyro_classified_severe [OF h1 h2', of 0 0 init_server 1700000000000 True]
  show ?thesis
    by blast
qed

text \<open>
  Claim C2. The claim is that a reading without \<open>gz\<close> is rejected before classification.
  The server does otherwise: on a fresh server such a reading is answered with a severe
  prediction whose score is \<open>NaN\<close>, becomes the latest value, starts the cooldown and
  sends an alert mail.
\<close>

theorem missing_gz_is_ingested:
  "snd (snd (post_data init_server missing_gz 1700000000000 0 0 True)) =
     StatusOk \<lparr> degradation_score = NaN, condition = Severe, forecast_30d = NaN,
                confidence = Fin 1 \<rparr> \<and>
   get_latest (fst (post_data init_server missing_gz 1700000000000 0 0 True)) =
     Latest missing_gz \<lparr> degradation_score = NaN, condition = Severe, forecast_30d = NaN,
                          confidence = Fin 1 \<rparr> \<and>
   lastAlertTime (fst (post_data init_server missing_gz 1700000000000 0 0 True)) = 1700000000000 \<and>
   notifications (fst (snd (post_data init_server missing_gz 1700000000000 0 0 True))) = 1"
proof -
  have d: "degradation missing_gz = NaN"
    by (rule degradation_missing_gyro) (simp add: missing_gz_def)
  have p: "computePredictions missing_gz 0 0 =
      \<lparr> degradation_score = NaN, condition = Severe, forecast_30d = NaN, confidence = Fin 1 \<rparr>"
    by (simp add: computePredictions_def Let_def condition_of_def d)
  have a: "truthy (ax missing_gz)" "truthy (ay missing_gz)" "truthy (az missing_gz)"
    by (simp_all add: missing_gz_def mpu_def)
  show ?thesis
    by (simp add: post_data_def post_data_sync_def post_data_resume_def Let_def p a get_latest_def
        init_server_def ALERT_COOLDOWN_MS_def notifications_def)
qed

text \<open>
  Claim C8 fails as stated: an accepted reading without a timestamp is published without
  one, and a timestamp supplied by the client is published as it came.
\<close>

theorem no_server_timestamp_counterexample:
  "accepted (mpu 1 1 1 0 0 0) \<and> timestamp (mpu 1 1 1 0 0 0) = JUndefined \<and>
   get_latest (fst (post_data init_server (mpu 1 1 1 0 0 0) 1700000000000 0 0 True)) =
     Latest (mpu 1 1 1 0 0 0) (computePredictions (mpu 1 1 1 0 0 0) 0 0) \<and>
   timestamp ((mpu 1 1 1 0 0 0)\<lparr>timestamp := JNum 5\<rparr>) = JNum 5 \<and>
   get_latest (fst (post_data init_server ((mpu 1 1 1 0 0 0)\<lparr>timestamp := JNum 5\<rparr>)
        1700000000000 0 0 True)) =
     Latest ((mpu 1 1 1 0 0 0)\<lparr>timestamp := JNum 5\<rparr>)
       (computePredictions ((mpu 1 1 1 0 0 0)\<lparr>timestamp := JNum 5\<rparr>) 0 0)"
proof -
  have a: "truthy (ax (mpu 1 1 1 0 0 0))" "truthy (ay (mpu 1 1 1 0 0 0))"
    "truthy (az (mpu 1 1 1 0 0 0))" "timestamp (mpu 1 1 1 0 0 0) = JUndefined"
    by (simp_all add: mpu_def)
  show ?thesis
    by (simp add: post_data_def post_data_sync_def post_data_resume_def Let_def get_latest_def
        accepted_def a split: prod.splits)
qed

text \<open>
  Claim C8, amended. The ingest endpoint assigns no timestamp: every accepted reading is
  published as the latest value with its fields exactly as received, next to its
  prediction.
\<close>

theorem ingest_publishes_reading_unchanged:
  assumes "accepted data"
  shows "get_latest (fst (post_data s data now rnd1 rnd2 mail_ok)) =
           Latest data (computePredictions data rnd1 rnd2)"
  using assms
  by (simp add: post_data_def post_data_sync_def post_data_resume_def Let_def get_latest_def
      accepted_def)

theorem ingest_publishes_reading_unchanged_witness:
  "accepted ((mpu 1 1 1 0 0 0)\<lparr>timestamp := JNum 5\<rparr>) \<and>
   get_latest (fst (post_data init_server ((mpu 1 1 1 0 0 0)\<lparr>timestamp := JNum 5\<rparr>)
        1700000000000 0 0 True)) =
     Latest ((mpu 1 1 1 0 0 0)\<lparr>timestamp := JNum 5\<rparr>)
       (computePredictions ((mpu 1 1 1 0 0 0)\<lparr>timestamp := JNum 5\<rparr>) 0 0)"
proof -
  have h: "accepted ((mpu 1 1 1 0 0 0)\<lparr>timestamp := JNum 5\<rparr>)"
    by (simp add: accepted_def mpu_def)
  from h ingest_publishes_reading_unchanged [OF h, of init_server 1700000000000 0 0 True]
  show ?thesis
    by blast
qed

section \<open>Rolling histories\<close>

lemma js_slice_MAX_POINTS: "js_slice xs (- MAX_POINTS) = drop (length xs - 50) xs"
proof -
  have "nat (max (int (length xs) + - 50) 0) = length xs - 50"
    by simp
  then show ?thesis
    by (simp add: js_slice_def MAX_POINTS_def Let_def)
qed

lemma drop_last_twice:
  "drop (length (drop (length xs - n) xs @ ys) - n) (drop (length xs - n) xs @ ys) =
     drop (length (xs @ ys) - n) (xs @ ys)"
proof (cases "length xs \<le> n")
  case True
  then show ?thesis by simp
next
  case False
  then have "length xs - (length xs - n) + length ys - n = length ys"
    by simp
  moreover have "length xs + length ys - n = (length xs - n) + length ys"
    using False by simp
  ultimately show ?thesis
    using False by (simp add: drop_append add.commute)
qed

lemma updateHistory_channels:
  "axHistory (updateHistory h data) = drop (length (axHistory h @ [ax data]) - 50) (axHistory h @ [ax data])"
  "ayHistory (updateHistory h data) = drop (length (ayHistory h @ [ay data]) - 50) (ayHistory h @ [ay data])"
  "azHistory (updateHistory h data) = drop (length (azHistory h @ [az data]) - 50) (azHistory h @ [az data])"
  "gxHistory (updateHistory h data) = drop (length (gxHistory h @ [gx data]) - 50) (gxHistory h @ [gx data])"
  "gyHistory (updateHistory h data) = drop (length (gyHistory h @ [gy data]) - 50) (gyHistory h @ [gy data])"
  "gzHistory (updateHistory h data) = drop (length (gzHistory h @ [gz data]) - 50) (gzHistory h @ [gz data])"
  "tempHistory (updateHistory h data) =
     drop (length (tempHistory h @ [temperature_c data]) - 50) (tempHistory h @ [temperature_c data])"
  "humidityHistory (updateHistory h data) =
     drop (length (humidityHistory h @ [humidity_percent data]) - 50)
       (humidityHistory h @ [humidity_percent data])"
  by (simp_all add: updateHistory_def js_slice_MAX_POINTS)

text \<open>One history after a run of readings: the last 50 of what was there and what arrived.\<close>

lemma channel_after:
  assumes "\<And>h data. c (updateHistory h data) = drop (length (c h @ [f data]) - 50) (c h @ [f data])"
  shows "c (foldl updateHistory h rs) =
           (if rs = [] then c h else drop (length (c h @ map f rs) - 50) (c h @ map f rs))"
proof (induction rs rule: rev_induct)
  case Nil
  show ?case by simp
next
  case (snoc r rs)
  show ?case
  proof (cases "rs = []")
    case True
    then show ?thesis by (simp add: assms)
  next
    case False
    then show ?thesis
      using snoc.IH drop_last_twice [of "c h @ map f rs" 50 "[f r]"] by (simp add: assms)
  qed
qed

lemma channel_after_60:
  assumes "\<And>h data. c (updateHistory h data) = drop (length (c h @ [f data]) - 50) (c h @ [f data])"
    and "length rs = 60"
  shows "c (foldl updateHistory h rs) = map f (drop 10 rs)"
proof -
  have "rs \<noteq> []"
    using assms(2) by auto
  then have "c (foldl updateHistory h rs) = drop (length (c h) + 10) (c h @ map f rs)"
    using channel_after [of c f h rs, OF assms(1)] assms(2) by simp
  then show ?thesis
    by (simp add: drop_map)
qed

text \<open>
  Claim C7. After 60 readings, each of the eight histories holds the last 50 values of its
  field, in arrival order: the values of the 60 readings without the first 10. After any
  single update no history is longer than 50.
\<close>

theorem rolling_history_keeps_last_50:
  "(length rs = 60 \<longrightarrow>
      map (\<lambda>c. c (foldl updateHistory h rs)) channels =
        map (\<lambda>f. map f (drop 10 rs)) channel_fields) \<and>
   (\<forall>c\<in>set channels. length (c (updateHistory h data)) \<le> 50)"
proof (intro conjI impI)
  assume "length rs = 60"
  then show "map (\<lambda>c. c (foldl updateHistory h rs)) channels =
        map (\<lambda>f. map f (drop 10 rs)) channel_fields"
    by (simp add: channels_def channel_fields_def channel_after_60 updateHistory_channels)
next
  have len: "length ys \<le> 50" if "ys = drop (length xs - 50) xs" for xs ys :: "jsval list"
    using that by simp
  note bounded = updateHistory_channels [THEN len]
  show "\<forall>c\<in>set channels. length (c (updateHistory h data)) \<le> 50"
    by (simp add: channels_def bounded)
qed

theorem rolling_history_keeps_last_50_witness:
  "length (map (\<lambda>i. mpu (real i) 1 1 0 0 0) [0..<60]) = 60 \<and>
   axHistory (foldl updateHistory init_histories (map (\<lambda>i. mpu (real i) 1 1 0 0 0) [0..<60])) =
     map (\<lambda>i. JNum (real i)) [10..<60] \<and>
   length (axHistory (updateHistory init_histories (mpu 1 1 1 0 0 0))) \<le> 50"
proof -
  let ?rs = "map (\<lambda>i. mpu (real i) 1 1 0 0 0) [0..<60]"
  have h: "length ?rs = 60"
    by simp
  note th = rolling_history_keeps_last_50 [of ?rs init_histories "mpu 1 1 1 0 0 0"]
  from th h have "map (\<lambda>c. c (foldl updateHistory init_histories ?rs)) channels =
        map (\<lambda>f. map f (drop 10 ?rs)) channel_fields"
    by blast
  then have "axHistory (foldl updateHistory init_histories ?rs) = map ax (drop 10 ?rs)"
    by (simp add: channels_def channel_fields_def)
  also have "\<dots> = map (\<lambda>i. JNum (real i)) [10..<60]"
    by (simp add: drop_map mpu_def)
  finally have a: "axHistory (foldl updateHistory init_histories ?rs) =
      map (\<lambda>i. JNum (real i)) [10..<60]" .
  from th have "\<forall>c\<in>set channels. length (c (updateHistory init_histories (mpu 1 1 1 0 0 0))) \<le> 50"
    by blast
  then have b: "length (axHistory (updateHistory init_histories (mpu 1 1 1 0 0 0))) \<le> 50"
    by (simp add: channels_def)
  from h a b show ?thesis
    by blast
qed

section \<open>Latest value and late joiners\<close>

lemma latestData_serve:
  "latestData (fst (serve s r)) =
     (if accepted (req_data r)
      then Some (req_data r, computePredictions (req_data r) (req_rnd1 r) (req_rnd2 r))
      else latestData s)"
  by (simp add: serve_def post_data_def post_data_sync_def post_data_resume_def accepted_def
      Let_def)

lemma latestData_serve_all:
  "latestData (fst (serve_all s reqs)) =
     (case last_accepted reqs of
        None \<Rightarrow> latestData s
      | Some r \<Rightarrow> Some (req_data r, computePredictions (req_data r) (req_rnd1 r) (req_rnd2 r)))"
proof (induction reqs arbitrary: s)
  case Nil
  show ?case by simp
next
  case (Cons r rs)
  obtain s' effs resp where sv: "serve s r = (s', effs, resp)"
    by (cases "serve s r") auto
  obtain s'' effs' where rest: "serve_all s' rs = (s'', effs')"
    by (cases "serve_all s' rs") auto
  have l: "latestData s' =
     (if accepted (req_data r)
      then Some (req_data r, computePredictions (req_data r) (req_rnd1 r) (req_rnd2 r))
      else latestData s)"
    using latestData_serve [of s r] by (simp add: sv)
  have "latestData s'' =
     (case last_accepted rs of
        None \<Rightarrow> latestData s'
      | Some r \<Rightarrow> Some (req_data r, computePredictions (req_data r) (req_rnd1 r) (req_rnd2 r)))"
    using Cons.IH [of s'] by (simp add: rest)
  then show ?case
    by (simp add: sv rest l split: option.splits)
qed

lemma publish_all_clients: "clients (foldl publish h ds) = clients h"
  by (induction ds arbitrary: h) (simp_all add: publish_def broadcastToClients_def Let_def)

lemma publish_all_latest:
  "latestSensorData (foldl publish h ds) = last (latestSensorData h # ds)"
  by (induction ds arbitrary: h) (simp_all add: publish_def broadcastToClients_def Let_def)

lemma publish_fresh: "fresh_client h c \<Longrightarrow> fresh_client (publish h d) c"
  by (force simp add: fresh_client_def publish_def broadcastToClients_def Let_def)

lemma publish_all_fresh: "fresh_client h c \<Longrightarrow> fresh_client (foldl publish h ds) c"
  by (induction ds arbitrary: h) (simp_all add: publish_fresh)

lemma fresh_received: "fresh_client h c \<Longrightarrow> received h c = []"
  by (auto simp add: fresh_client_def received_def filter_empty_conv)

lemma late_join:
  assumes "fresh_client h c"
  shows "received (on_connection (foldl publish h ds) c) c = [last (latestSensorData h # ds)]"
proof -
  have "received (foldl publish h ds) c = []"
    using assms by (intro fresh_received publish_all_fresh)
  then show ?thesis
    by (simp add: received_def on_connection_def publish_all_latest)
qed

text \<open>
  Claim C6. \<open>GET /latest\<close> answers \<open>No data yet\<close> on a fresh server and as long as no
  request has passed the validator; afterwards it answers with the reading and the
  prediction of the last request that passed. A WebSocket client that connects after one or
  more values have been published, and that was sent nothing before, has received exactly
  one message once the connection handler has run: the last published value.
\<close>

theorem latest_value_only:
  "get_latest init_server = NoDataYet ''No data yet'' \<and>
   (last_accepted reqs = None \<longrightarrow>
      get_latest (fst (serve_all init_server reqs)) = NoDataYet ''No data yet'') \<and>
   (last_accepted reqs = Some r \<longrightarrow>
      get_latest (fst (serve_all s reqs)) =
        Latest (req_data r) (computePredictions (req_data r) (req_rnd1 r) (req_rnd2 r))) \<and>
   (ds \<noteq> [] \<and> fresh_client h c \<longrightarrow>
      received (on_connection (foldl publish h ds) c) c = [last ds])"
proof (intro conjI impI)
  show "get_latest init_server = NoDataYet ''No data yet''"
    by (simp add: get_latest_def init_server_def)
next
  assume "last_accepted reqs = None"
  then show "get_latest (fst (serve_all init_server reqs)) = NoDataYet ''No data yet''"
    by (simp add: get_latest_def latestData_serve_all init_server_def)
next
  assume "last_accepted reqs = Some r"
  then show "get_latest (fst (serve_all s reqs)) =
        Latest (req_data r) (computePredictions (req_data r) (req_rnd1 r) (req_rnd2 r))"
    by (simp add: get_latest_def latestData_serve_all)
next
  assume "ds \<noteq> [] \<and> fresh_client h c"
  then show "received (on_connection (foldl publish h ds) c) c = [last ds]"
    by (simp add: late_join)
qed

theorem latest_value_only_witness:
  "last_accepted [(severe_request 3)\<lparr>req_data := mpu 0 0 0 0 0 0\<rparr>] = None \<and>
   get_latest (fst (serve_all init_server [(severe_request 3)\<lparr>req_data := mpu 0 0 0 0 0 0\<rparr>]))
     = NoDataYet ''No data yet'' \<and>
   last_accepted [severe_request 1, severe_request 2,
                  (severe_request 3)\<lparr>req_data := mpu 0 0 0 0 0 0\<rparr>] = Some (severe_request 2) \<and>
   get_latest (fst (serve_all init_server
      [severe_request 1, severe_request 2, (severe_request 3)\<lparr>req_data := mpu 0 0 0 0 0 0\<rparr>]))
     = Latest (req_data (severe_request 2))
         (computePredictions (req_data (severe_request 2)) (req_rnd1 (severe_request 2))
            (req_rnd2 (severe_request 2))) \<and>
   fresh_client \<lparr> latestSensorData = 0::nat, clients = [(1, True)], sent = [] \<rparr> 2 \<and>
   received (on_connection
      (foldl publish \<lparr> latestSensorData = 0::nat, clients = [(1, True)], sent = [] \<rparr>
         [1, 2, 3, 4, 5]) 2) 2 = [5]"
proof -
  let ?bad = "(severe_request 3)\<lparr>req_data := mpu 0 0 0 0 0 0\<rparr>"
  let ?h = "\<lparr> latestSensorData = 0::nat, clients = [(1, True)], sent = [] \<rparr>"
  have h1: "last_accepted [?bad] = None"
    by (simp add: accepted_def mpu_def)
  have h2: "last_accepted [severe_request 1, severe_request 2, ?bad] = Some (severe_request 2)"
    by (simp add: accepted_def mpu_def severe_request_def)
  have h3: "[1, 2, 3, 4, 5::nat] \<noteq> [] \<and> fresh_client ?h 2"
    by (simp add: fresh_client_def)
  have l: "last [1, 2, 3, 4, 5::nat] = 5"
    by simp
  from h1 latest_value_only [of "[?bad]"]
  have c1: "get_latest (fst (serve_all init_server [?bad])) = NoDataYet ''No data yet''"
    by blast
  from h2 latest_value_only [of "[severe_request 1, severe_request 2, ?bad]" "severe_request 2"
      init_server]
  have c2: "get_latest (fst (serve_all init_server [severe_request 1, severe_request 2, ?bad]))
     = Latest (req_data (severe_request 2))
         (computePredictions (req_data (severe_request 2)) (req_rnd1 (severe_request 2))
            (req_rnd2 (severe_request 2)))"
    by blast
  from h3 latest_value_only [of _ _ _ "[1, 2, 3, 4, 5::nat]" ?h 2]
  have "received (on_connection (foldl publish ?h [1, 2, 3, 4, 5]) 2) 2 = [last [1, 2, 3, 4, 5]]"
    by blast
  then have c3: "received (on_connection (foldl publish ?h [1, 2, 3, 4, 5]) 2) 2 = [5]"
    unfolding l .
  from h1 h2 h3 c1 c2 c3 show ?thesis
    by blast
qed

end
